theory Spec2Isabelle
  imports Main "HOL-Library.Word" "HOL-Library.AList"
begin

section \<open>Shared vocabulary\<close>

text \<open>
  The peer connection, the RTP packet type and the codec helpers belong to the
  pion libraries. The model keeps of them exactly what the functions below read
  or write: the connection, ICE and signaling states, the sender list, and the
  two rewritten header fields of a packet.
\<close>

datatype PeerConnectionState =
  PeerConnectionStateNew
  | PeerConnectionStateConnecting
  | PeerConnectionStateConnected
  | PeerConnectionStateDisconnected
  | PeerConnectionStateFailed
  | PeerConnectionStateClosed

datatype RTPCodecType = RTPCodecTypeAudio | RTPCodecTypeVideo

text \<open>
  Modelled from the spec: the declaration of \<open>QualityLevel\<close> and of
  \<open>Uint32ToQualityLevel\<close> is not among the sources. The glossary gives the four
  levels; \<open>lastQuality == 0\<close> in \<open>push\<close> is the test for the level None (step 3 of
  the simulcast push). The atomic \<open>lastQuality\<close> cell therefore holds a level.
\<close>

datatype QualityLevel = QualityNone | QualityLow | QualityMid | QualityHigh

datatype runtime_panic = IntegerDivideByZero | SliceBoundsOutOfRange

section \<open>Simulcast client track: \<open>push\<close> (clienttrack.go)\<close>

record Packet =
  Timestamp :: "32 word"
  SequenceNumber :: "16 word"

record SimulcastTrack =
  baseTS :: "32 word"
  remoteTrackHighBaseTS :: "32 word"
  remoteTrackMidBaseTS :: "32 word"
  remoteTrackLowBaseTS :: "32 word"

record SimulcastClientTrack =
  remoteTrack :: SimulcastTrack
  sequenceNumber :: "32 word"
  lastQuality :: QualityLevel
  lastTimestamp :: "32 word"

text \<open>
  What one call of \<open>push\<close> reads from outside the track: the subscriber's
  connection state, the verdict of \<open>IsKeyframe\<close> on the packet, the answer the
  bitrate controller would give, the packet and the layer it arrived on.
\<close>

record PushCall =
  connState :: PeerConnectionState
  isKeyframe :: bool
  controllerQuality :: QualityLevel
  packet :: Packet
  layer :: QualityLevel

datatype PushResult = Dropped | RequestedPLI | Written Packet

text \<open>Lines 138 to 145: the switch over the layer that rewrites the timestamp.\<close>

definition rebaseTimestamp :: "SimulcastTrack \<Rightarrow> QualityLevel \<Rightarrow> 32 word \<Rightarrow> 32 word" where
  "rebaseTimestamp r quality ts =
     (case quality of
        QualityHigh \<Rightarrow> baseTS r + ((ts - remoteTrackHighBaseTS r) - remoteTrackHighBaseTS r)
      | QualityMid \<Rightarrow> baseTS r + ((ts - remoteTrackMidBaseTS r) - remoteTrackMidBaseTS r)
      | QualityLow \<Rightarrow> baseTS r + ((ts - remoteTrackLowBaseTS r) - remoteTrackLowBaseTS r)
      | QualityNone \<Rightarrow> ts)"

text \<open>Lines 132 to 160: the branch taken once the quality to forward is known.\<close>

definition writeIfMatching ::
  "SimulcastClientTrack \<Rightarrow> QualityLevel \<Rightarrow> QualityLevel \<Rightarrow> Packet
     \<Rightarrow> SimulcastClientTrack \<times> PushResult" where
  "writeIfMatching t trackQuality quality rtp =
     (if trackQuality = quality then
        (let t1 = t\<lparr>lastTimestamp := Timestamp rtp\<rparr>;
             ts = rebaseTimestamp (remoteTrack t1) quality (Timestamp rtp);
             t2 = t1\<lparr>sequenceNumber := sequenceNumber t1 + 1\<rparr>;
             out = rtp\<lparr>Timestamp := ts, SequenceNumber := ucast (sequenceNumber t2)\<rparr>;
             t3 = (if lastQuality t \<noteq> quality then t2\<lparr>lastQuality := quality\<rparr> else t2)
         in (t3, Written out))
      else (t, Dropped))"

definition push :: "SimulcastClientTrack \<Rightarrow> PushCall \<Rightarrow> SimulcastClientTrack \<times> PushResult" where
  "push t c =
     (if connState c \<noteq> PeerConnectionStateConnected then (t, Dropped)
      else if \<not> isKeyframe c \<and> lastQuality t = QualityNone then (t, RequestedPLI)
      else if isKeyframe c \<and> lastTimestamp t \<noteq> Timestamp (packet c) then
        (if controllerQuality c = QualityNone then (t\<lparr>lastQuality := QualityNone\<rparr>, Dropped)
         else writeIfMatching t (controllerQuality c) (layer c) (packet c))
      else writeIfMatching t (lastQuality t) (layer c) (packet c))"

text \<open>The packets written by a run of \<open>push\<close> calls, in the order of the calls.\<close>

fun written :: "PushResult \<Rightarrow> Packet list" where
  "written (Written p) = [p]"
| "written Dropped = []"
| "written RequestedPLI = []"

fun pushAll :: "SimulcastClientTrack \<Rightarrow> PushCall list \<Rightarrow> SimulcastClientTrack \<times> Packet list" where
  "pushAll t [] = (t, [])"
| "pushAll t (c # cs) =
     (case push t c of (t1, r) \<Rightarrow>
        (case pushAll t1 cs of (t2, out) \<Rightarrow> (t2, written r @ out)))"

section \<open>Simulcast client track: \<open>getDistributedQuality\<close> (clienttrack.go)\<close>

record RoomTrack =
  Kind :: RTPCodecType
  IsSimulcast :: bool

record RoomClient =
  roomClientID :: string
  roomTracks :: "RoomTrack list"

record BitratesConfig =
  Audio :: "32 word"
  Video :: "32 word"
  VideoHigh :: "32 word"
  VideoMid :: "32 word"

text \<open>
  Lines 252 to 266. The three counters are Go \<open>int\<close>s, carried here as a triple
  (audio, video, simulcast) of naturals.
\<close>

fun countTracks :: "RoomTrack list \<Rightarrow> nat \<times> nat \<times> nat \<Rightarrow> nat \<times> nat \<times> nat" where
  "countTracks [] acc = acc"
| "countTracks (track # rest) (a, v, s) =
     countTracks rest
       (if Kind track = RTPCodecTypeAudio then (a + 1, v, s)
        else if IsSimulcast track then (a, v, s + 1)
        else (a, v + 1, s))"

fun countClients :: "string \<Rightarrow> RoomClient list \<Rightarrow> nat \<times> nat \<times> nat \<Rightarrow> nat \<times> nat \<times> nat" where
  "countClients self [] acc = acc"
| "countClients self (client # rest) acc =
     countClients self rest
       (if self \<noteq> roomClientID client then countTracks (roomTracks client) acc else acc)"

text \<open>Lines 272 to 278: the comparison chain on the per-simulcast share.\<close>

definition qualityOfShare :: "BitratesConfig \<Rightarrow> 32 word \<Rightarrow> QualityLevel" where
  "qualityOfShare cfg distributedBandwidth =
     (if distributedBandwidth > VideoHigh cfg then QualityHigh
      else if distributedBandwidth < VideoHigh cfg \<and> distributedBandwidth > VideoMid cfg
        then QualityMid
      else QualityLow)"

text \<open>
  \<open>uint32(n)\<close> of a Go \<open>int\<close> keeps the low 32 bits, which is what \<open>of_nat\<close> into
  \<open>32 word\<close> does. An integer division by zero is a run-time panic in Go.
\<close>

definition getDistributedQuality ::
  "BitratesConfig \<Rightarrow> string \<Rightarrow> RoomClient list \<Rightarrow> 32 word \<Rightarrow> runtime_panic + QualityLevel" where
  "getDistributedQuality cfg self clients availableBandwidth =
     (case countClients self clients (0, 0, 0) of
        (audioTracksCount, videoTracksCount, simulcastTracksCount) \<Rightarrow>
          (let leftBandwidth = availableBandwidth - (of_nat audioTracksCount * Audio cfg)
                                 - (of_nat videoTracksCount * Video cfg)
           in if (of_nat simulcastTracksCount :: 32 word) = 0 then Inl IntegerDivideByZero
              else Inr (qualityOfShare cfg (leftBandwidth div of_nat simulcastTracksCount))))"

section \<open>Metadata change subscriptions (metadata part of room_stats.go)\<close>

text \<open>
  Callbacks are Go function values; the model names them by values of an arbitrary
  type \<open>'cb\<close>. The key/value map of the metadata is not touched by the two
  functions below and is left out.
\<close>

record 'cb Metadata =
  onChangedCallbacks :: "'cb list"

record OnMetaChangedSubscription =
  idx :: nat

definition NewMetadata :: "'cb Metadata" where
  "NewMetadata = \<lparr>onChangedCallbacks = []\<rparr>"

definition OnChanged :: "'cb Metadata \<Rightarrow> 'cb \<Rightarrow> 'cb Metadata \<times> OnMetaChangedSubscription" where
  "OnChanged m f =
     (let nextIdx = length (onChangedCallbacks m)
      in (m\<lparr>onChangedCallbacks := onChangedCallbacks m @ [f]\<rparr>, \<lparr>idx = nextIdx\<rparr>))"

text \<open>
  Line 94: \<open>append(cbs[:idx], cbs[idx+1:]...)\<close>. The slice expression
  \<open>cbs[idx+1:]\<close> panics when \<open>idx + 1\<close> exceeds the length.
\<close>

definition Unsubscribe ::
  "OnMetaChangedSubscription \<Rightarrow> 'cb Metadata \<Rightarrow> runtime_panic + 'cb Metadata" where
  "Unsubscribe s m =
     (if idx s + 1 > length (onChangedCallbacks m) then Inl SliceBoundsOutOfRange
      else Inr (m\<lparr>onChangedCallbacks :=
                    take (idx s) (onChangedCallbacks m) @ drop (idx s + 1) (onChangedCallbacks m)\<rparr>))"

text \<open>Two calls in a row on the same handle; a panic of the first ends the run.\<close>

definition UnsubscribeTwice ::
  "OnMetaChangedSubscription \<Rightarrow> 'cb Metadata \<Rightarrow> runtime_panic + 'cb Metadata" where
  "UnsubscribeTwice s m =
     (case Unsubscribe s m of Inl e \<Rightarrow> Inl e | Inr m1 \<Rightarrow> Unsubscribe s m1)"

section \<open>Client (client part of room_stats.go)\<close>

datatype ICEConnectionState =
  ICEConnectionStateNew
  | ICEConnectionStateChecking
  | ICEConnectionStateConnected
  | ICEConnectionStateCompleted
  | ICEConnectionStateDisconnected
  | ICEConnectionStateFailed
  | ICEConnectionStateClosed

datatype SignalingState =
  SignalingStateStable
  | SignalingStateHaveLocalOffer
  | SignalingStateHaveRemoteOffer
  | SignalingStateHaveLocalPranswer
  | SignalingStateHaveRemotePranswer
  | SignalingStateClosed

datatype ClientState = ClientStateNew | ClientStateActive | ClientStateRestart | ClientStateEnded

record Track =
  trackID :: string
  trackStreamID :: string

text \<open>A sender whose track has been removed reports no track (\<open>nil\<close>).\<close>

record PeerConnection =
  connectionState :: PeerConnectionState
  iceConnectionState :: ICEConnectionState
  signalingState :: SignalingState
  senders :: "Track option list"

datatype QueueItem = negotiationQueue | renegotiateQueue | allowRemoteRenegotiationQueue

datatype Callback = OnRenegotiation | OnAllowedRemoteRenegotiation

text \<open>
  Go maps are association lists in the order in which a \<open>range\<close> loop visits
  them; every list order is a possible order of visit. The field
  \<open>hasOnAllowedRemoteRenegotiation\<close> stands for \<open>OnAllowedRemoteRenegotiation != nil\<close>,
  and \<open>invoked\<close> records the external callbacks the client has called so far.
  Fields that none of the functions below reads or writes (contexts, the mutex,
  the candidate buffers, the callback lists) are left out. The peer connection
  is read as it stands: the changes it makes to its own states during a
  negotiation are not followed.
\<close>

record Client =
  clientID :: string
  State :: ClientState
  canAddCandidate :: bool
  isInRenegotiation :: bool
  isInRemoteNegotiation :: bool
  pendingRemoteRenegotiation :: bool
  NegotiationNeeded :: bool
  hasOnAllowedRemoteRenegotiation :: bool
  peerConnection :: PeerConnection
  pendingReceivedTracks :: "(string \<times> Track) list"
  publishedTracks :: "(string \<times> Track) list"
  tracks :: "(string \<times> Track) list"
  queue :: "QueueItem list"
  invoked :: "Callback list"

subsection \<open>Signaling\<close>

definition IsAllowNegotiation :: "Client \<Rightarrow> bool \<times> Client" where
  "IsAllowNegotiation c =
     (if isInRenegotiation c then (False, c\<lparr>pendingRemoteRenegotiation := True\<rparr>)
      else (True, c\<lparr>isInRemoteNegotiation := True\<rparr>))"

text \<open>
  The calls into the peer connection made by \<open>negotiateQueuOp\<close> either all
  succeed or the first failing one ends the operation with an error (the boolean
  result says whether an answer is returned). Flushing the buffered ICE
  candidates and counting the transceivers touch none of the flags and are left
  out.
\<close>

datatype NegotiateOutcome =
  SetRemoteDescriptionFails | CreateAnswerFails | SetLocalDescriptionFails | NegotiateSucceeds

definition negotiateQueuOp :: "NegotiateOutcome \<Rightarrow> Client \<Rightarrow> bool \<times> Client" where
  "negotiateQueuOp outcome c =
     (let c1 = c\<lparr>isInRemoteNegotiation := True\<rparr>
      in case outcome of
           SetRemoteDescriptionFails \<Rightarrow> (False, c1)
         | CreateAnswerFails \<Rightarrow> (False, c1)
         | SetLocalDescriptionFails \<Rightarrow> (False, c1)
         | NegotiateSucceeds \<Rightarrow>
             (True, c1\<lparr>canAddCandidate := True, isInRemoteNegotiation := False\<rparr>))"

definition renegotiate :: "Client \<Rightarrow> Client" where
  "renegotiate c = c\<lparr>queue := queue c @ [renegotiateQueue]\<rparr>"

definition allowRemoteRenegotiation :: "Client \<Rightarrow> Client" where
  "allowRemoteRenegotiation c = c\<lparr>queue := queue c @ [allowRemoteRenegotiationQueue]\<rparr>"

text \<open>
  One pass through the body of the renegotiation loop meets these outcomes of
  its external calls, in the order of lines 494 to 523. While \<open>OnRenegotiation\<close>
  blocks, the signaling layer may call \<open>IsAllowNegotiation\<close> directly (it is not
  a queue item); \<open>remoteRequests\<close> counts those calls.
\<close>

datatype RenegotiationOutcome =
  CreateOfferFails
  | SetLocalDescriptionOfferFails
  | OnRenegotiationFails
  | AnswerIsNotAnAnswer
  | SetRemoteDescriptionAnswerFails
  | RenegotiationSucceeds

record RenegotiationPass =
  outcome :: RenegotiationOutcome
  remoteRequests :: nat

definition duringOnRenegotiation :: "nat \<Rightarrow> Client \<Rightarrow> Client" where
  "duringOnRenegotiation n c =
     ((\<lambda>c'. snd (IsAllowNegotiation c')) ^^ n) (c\<lparr>invoked := invoked c @ [OnRenegotiation]\<rparr>)"

text \<open>
  Lines 487 to 524, one iteration: \<open>Inl\<close> is a \<open>return\<close> out of the whole
  operation, \<open>Inr\<close> falls through to the next test of the loop condition.
\<close>

definition renegotiateBody :: "RenegotiationPass \<Rightarrow> Client \<Rightarrow> Client + Client" where
  "renegotiateBody p c =
     (let c1 = c\<lparr>NegotiationNeeded := False\<rparr>
      in if State c1 \<noteq> ClientStateEnded
            \<and> signalingState (peerConnection c1) = SignalingStateStable
            \<and> connectionState (peerConnection c1) = PeerConnectionStateConnected
         then (case outcome p of
                 CreateOfferFails \<Rightarrow> Inl c1
               | SetLocalDescriptionOfferFails \<Rightarrow> Inl c1
               | OnRenegotiationFails \<Rightarrow> Inl (duringOnRenegotiation (remoteRequests p) c1)
               | AnswerIsNotAnAnswer \<Rightarrow> Inl (duringOnRenegotiation (remoteRequests p) c1)
               | SetRemoteDescriptionAnswerFails \<Rightarrow>
                   Inl (duringOnRenegotiation (remoteRequests p) c1)
               | RenegotiationSucceeds \<Rightarrow> Inr (duringOnRenegotiation (remoteRequests p) c1))
         else Inr c1)"

text \<open>
  Lines 486 to 527. \<open>passes i\<close> gives the outcomes met by the \<open>i\<close>-th iteration.
  Leaving the loop normally runs line 527; a \<open>return\<close> inside the body skips it.
  The loop \<open>for c.NegotiationNeeded\<close> ends because its body clears the flag and
  nothing that runs meanwhile sets it again: the flag is written only by
  \<open>renegotiateQueuOp\<close>, and the queue runs one operation at a time.
\<close>

function renegotiateLoop :: "(nat \<Rightarrow> RenegotiationPass) \<Rightarrow> nat \<Rightarrow> Client \<Rightarrow> Client" where
  "renegotiateLoop passes i c =
     (if NegotiationNeeded c then
        (case renegotiateBody (passes i) c of
           Inl c' \<Rightarrow> c'
         | Inr c' \<Rightarrow> renegotiateLoop passes (Suc i) c')
      else c\<lparr>isInRenegotiation := False\<rparr>)"
  by pat_completeness auto
termination
proof (relation "measure (\<lambda>(passes, i, c). if NegotiationNeeded c then 1 else 0)")
  show "wf (measure (\<lambda>(passes :: nat \<Rightarrow> RenegotiationPass, i :: nat, c).
              if NegotiationNeeded c then 1 else 0))"
    by simp
next
  fix passes :: "nat \<Rightarrow> RenegotiationPass" and i :: nat and c c' :: Client
  assume needed: "NegotiationNeeded c" and body: "renegotiateBody (passes i) c = Inr c'"
  have during: "NegotiationNeeded (duringOnRenegotiation k d) = NegotiationNeeded d" for k d
    unfolding duringOnRenegotiation_def
    by (induction k) (simp_all add: IsAllowNegotiation_def)
  have "\<not> NegotiationNeeded c'"
    using body
    by (auto simp: renegotiateBody_def Let_def during
        split: if_splits RenegotiationOutcome.splits)
  then show "((passes, Suc i, c'), (passes, i, c))
               \<in> measure (\<lambda>(passes, i, c). if NegotiationNeeded c then 1 else 0)"
    using needed by simp
qed

declare renegotiateLoop.simps [simp del]

definition renegotiateQueuOp :: "(nat \<Rightarrow> RenegotiationPass) \<Rightarrow> Client \<Rightarrow> Client" where
  "renegotiateQueuOp passes c =
     (let c1 = c\<lparr>NegotiationNeeded := True\<rparr>
      in if isInRemoteNegotiation c1 then c1
         else if isInRenegotiation c1 then c1
         else renegotiateLoop passes 0 (c1\<lparr>isInRenegotiation := True\<rparr>))"

definition allowRemoteRenegotiationQueuOp :: "Client \<Rightarrow> Client" where
  "allowRemoteRenegotiationQueuOp c =
     (if hasOnAllowedRemoteRenegotiation c
      then c\<lparr>isInRemoteNegotiation := True,
              invoked := invoked c @ [OnAllowedRemoteRenegotiation]\<rparr>
      else c)"

text \<open>
  A run of signaling operations on one client: the direct call
  \<open>IsAllowNegotiation\<close> and the three queue operations, each with the outcomes
  of its external calls.
\<close>

datatype SignalingOp =
  CallIsAllowNegotiation
  | RunNegotiate NegotiateOutcome
  | RunRenegotiate "nat \<Rightarrow> RenegotiationPass"
  | RunAllowRemoteRenegotiation

fun applyOp :: "SignalingOp \<Rightarrow> Client \<Rightarrow> Client" where
  "applyOp CallIsAllowNegotiation c = snd (IsAllowNegotiation c)"
| "applyOp (RunNegotiate result) c = snd (negotiateQueuOp result c)"
| "applyOp (RunRenegotiate passes) c = renegotiateQueuOp passes c"
| "applyOp RunAllowRemoteRenegotiation c = allowRemoteRenegotiationQueuOp c"

fun runOps :: "SignalingOp list \<Rightarrow> Client \<Rightarrow> Client" where
  "runOps [] c = c"
| "runOps (op # ops) c = runOps ops (applyOp op c)"

subsection \<open>Tracks\<close>

definition trackKey :: "string \<Rightarrow> string \<Rightarrow> string" where
  "trackKey streamID tID = streamID @ ''-'' @ tID"

text \<open>
  \<open>RemoveTrack\<close> of the peer connection leaves the sender in place with no
  track. Lines 605 to 612 apply it to every sender whose track matches.
\<close>

definition removeFromSender :: "string \<Rightarrow> string \<Rightarrow> Track option \<Rightarrow> Track option" where
  "removeFromSender streamID tID sender =
     (case sender of
        None \<Rightarrow> None
      | Some track \<Rightarrow>
          if trackID track = tID \<and> trackStreamID track = streamID then None else Some track)"

definition removePublishedTrack :: "string \<Rightarrow> string \<Rightarrow> Client \<Rightarrow> bool \<times> Client" where
  "removePublishedTrack streamID tID c =
     (let key = trackKey streamID tID;
          removed = (map_of (publishedTracks c) key \<noteq> None);
          c1 = (if removed then c\<lparr>publishedTracks := AList.delete key (publishedTracks c)\<rparr>
                else c)
      in if connectionState (peerConnection c1) = PeerConnectionStateClosed then (False, c1)
         else (removed,
               c1\<lparr>peerConnection := (peerConnection c1)
                     \<lparr>senders := map (removeFromSender streamID tID)
                                     (senders (peerConnection c1))\<rparr>\<rparr>))"

text \<open>
  \<open>AddTrack\<close> of the peer connection refuses on a closed connection and otherwise
  adds a sender carrying the track.
\<close>

definition setClientTrack :: "Track \<Rightarrow> Client \<Rightarrow> bool \<times> Client" where
  "setClientTrack track c =
     (let id = trackKey (trackStreamID track) (trackID track)
      in if map_of (publishedTracks c) id \<noteq> None then (False, c)
         else
           (let c1 = c\<lparr>publishedTracks := AList.update id track (publishedTracks c)\<rparr>
            in if connectionState (peerConnection c1) = PeerConnectionStateClosed
               then (False, c1)
               else (True,
                     c1\<lparr>peerConnection := (peerConnection c1)
                           \<lparr>senders := senders (peerConnection c1) @ [Some track]\<rparr>\<rparr>)))"

definition addTrack :: "Track \<Rightarrow> Client \<Rightarrow> bool \<times> Client" where
  "addTrack track c =
     (if iceConnectionState (peerConnection c) \<noteq> ICEConnectionStateConnected
      then (False,
            c\<lparr>pendingReceivedTracks :=
                 AList.update (trackKey (trackStreamID track) (trackID track)) track
                   (pendingReceivedTracks c)\<rparr>)
      else setClientTrack track c)"

record PublishedTrack =
  ClientID :: string
  LocalTrack :: Track

fun currentTracksLoop ::
  "string \<Rightarrow> (string \<times> Track) list \<Rightarrow> (string \<rightharpoonup> PublishedTrack) \<Rightarrow> (string \<rightharpoonup> PublishedTrack)" where
  "currentTracksLoop cid [] currentTracks = currentTracks"
| "currentTracksLoop cid ((k, track) # rest) currentTracks =
     currentTracksLoop cid rest
       (currentTracks(trackKey (trackStreamID track) (trackID track)
          \<mapsto> \<lparr>ClientID = cid, LocalTrack = track\<rparr>))"

definition GetCurrentTracks :: "Client \<Rightarrow> (string \<rightharpoonup> PublishedTrack)" where
  "GetCurrentTracks c =
     (if connectionState (peerConnection c) = PeerConnectionStateClosed
         \<or> connectionState (peerConnection c) = PeerConnectionStateFailed
      then Map.empty
      else currentTracksLoop (clientID c) (publishedTracks c) Map.empty)"

section \<open>SFU (sfu part, unnamed source)\<close>

record SFU =
  clients :: "Client list"

text \<open>Lines 400 to 407: each client's answer overwrites \<open>trackRemoved\<close>.\<close>

fun removeTrackLoop :: "string \<Rightarrow> string \<Rightarrow> Client list \<Rightarrow> bool \<Rightarrow> bool \<times> Client list" where
  "removeTrackLoop streamID tID [] trackRemoved = (trackRemoved, [])"
| "removeTrackLoop streamID tID (client # rest) trackRemoved =
     (case removePublishedTrack streamID tID client of (r, client') \<Rightarrow>
        (case removeTrackLoop streamID tID rest r of (res, rest') \<Rightarrow> (res, client' # rest')))"

definition removeTrack :: "string \<Rightarrow> string \<Rightarrow> SFU \<Rightarrow> bool \<times> SFU" where
  "removeTrack streamID tID s =
     (case removeTrackLoop streamID tID (clients s) False of
        (trackRemoved, cs) \<Rightarrow> (trackRemoved, s\<lparr>clients := cs\<rparr>))"

text \<open>
  Lines 411 to 432. The state of the loops is the subscriber as changed by
  \<open>addTrack\<close>, the publishers asked for a key frame so far, and
  \<open>needRenegotiation\<close>. \<open>currentTracks\<close> is computed once, before the loops.
\<close>

fun syncPeerTracks ::
  "(string \<rightharpoonup> PublishedTrack) \<Rightarrow> string \<Rightarrow> (string \<times> Track) list
     \<Rightarrow> Client \<times> string list \<times> bool \<Rightarrow> Client \<times> string list \<times> bool" where
  "syncPeerTracks currentTracks peerID [] st = st"
| "syncPeerTracks currentTracks peerID ((k, track) # rest) (client, keyFrameRequests, needRenegotiation) =
     syncPeerTracks currentTracks peerID rest
       (if clientID client \<noteq> peerID
           \<and> currentTracks (trackKey (trackStreamID track) (trackID track)) = None
        then (snd (addTrack track client), keyFrameRequests @ [peerID], True)
        else (client, keyFrameRequests, needRenegotiation))"

fun syncPeers ::
  "(string \<rightharpoonup> PublishedTrack) \<Rightarrow> Client list
     \<Rightarrow> Client \<times> string list \<times> bool \<Rightarrow> Client \<times> string list \<times> bool" where
  "syncPeers currentTracks [] st = st"
| "syncPeers currentTracks (clientPeer # rest) st =
     syncPeers currentTracks rest
       (syncPeerTracks currentTracks (clientID clientPeer) (tracks clientPeer) st)"

definition SyncTrack :: "SFU \<Rightarrow> Client \<Rightarrow> Client \<times> string list \<times> bool" where
  "SyncTrack s client = syncPeers (GetCurrentTracks client) (clients s) (client, [], False)"

text \<open>
  A signaling operation completes when no \<open>return\<close> inside the renegotiation
  loop cuts it short.
\<close>

fun completes :: "SignalingOp \<Rightarrow> bool" where
  "completes (RunRenegotiate passes) = (outcome (passes 0) = RenegotiationSucceeds)"
| "completes CallIsAllowNegotiation = True"
| "completes (RunNegotiate result) = True"
| "completes RunAllowRemoteRenegotiation = True"

section \<open>Example inputs\<close>

abbreviation peerClient ::
  "string \<Rightarrow> PeerConnectionState \<Rightarrow> (string \<times> Track) list \<Rightarrow> (string \<times> Track) list
     \<Rightarrow> Track option list \<Rightarrow> Client" where
  "peerClient name st published own sndrs \<equiv>
     \<lparr>clientID = name, State = ClientStateActive, canAddCandidate = True,
      isInRenegotiation = False, isInRemoteNegotiation = False,
      pendingRemoteRenegotiation = False, NegotiationNeeded = False,
      hasOnAllowedRemoteRenegotiation = True,
      peerConnection = \<lparr>connectionState = st,
                         iceConnectionState = ICEConnectionStateConnected,
                         signalingState = SignalingStateStable, senders = sndrs\<rparr>,
      pendingReceivedTracks = [], publishedTracks = published, tracks = own,
      queue = [], invoked = []\<rparr>"

abbreviation trackST :: Track where
  "trackST \<equiv> \<lparr>trackID = ''t'', trackStreamID = ''s''\<rparr>"

abbreviation layersTrack :: "32 word \<Rightarrow> QualityLevel \<Rightarrow> SimulcastClientTrack" where
  "layersTrack n q \<equiv>
     \<lparr>remoteTrack = \<lparr>baseTS = 5000, remoteTrackHighBaseTS = 1000,
                      remoteTrackMidBaseTS = 2000, remoteTrackLowBaseTS = 3000\<rparr>,
      sequenceNumber = n, lastQuality = q, lastTimestamp = 0\<rparr>"

abbreviation pushOf :: "bool \<Rightarrow> QualityLevel \<Rightarrow> 32 word \<Rightarrow> PushCall" where
  "pushOf key q ts \<equiv>
     \<lparr>connState = PeerConnectionStateConnected, isKeyframe = key, controllerQuality = q,
      packet = \<lparr>Timestamp = ts, SequenceNumber = 7\<rparr>, layer = q\<rparr>"

abbreviation thresholds :: BitratesConfig where
  "thresholds \<equiv> \<lparr>Audio = 48000, Video = 1200000, VideoHigh = 2000000, VideoMid = 800000\<rparr>"

abbreviation simulcastPublisher :: RoomClient where
  "simulcastPublisher \<equiv>
     \<lparr>roomClientID = ''pub'', roomTracks = [\<lparr>Kind = RTPCodecTypeVideo, IsSimulcast = True\<rparr>]\<rparr>"

section \<open>Timestamp rebasing\<close>

lemma push_written_timestamp:
  "push t c = (t', Written p) \<Longrightarrow>
     Timestamp p = rebaseTimestamp (remoteTrack t) (layer c) (Timestamp (packet c))"
  by (auto simp: push_def writeIfMatching_def Let_def split: if_splits)

lemma rebaseTimestamp_once_iff:
  "rebaseTimestamp r QualityHigh ts = baseTS r + (ts - remoteTrackHighBaseTS r)
     \<longleftrightarrow> remoteTrackHighBaseTS r = 0"
  "rebaseTimestamp r QualityMid ts = baseTS r + (ts - remoteTrackMidBaseTS r)
     \<longleftrightarrow> remoteTrackMidBaseTS r = 0"
  "rebaseTimestamp r QualityLow ts = baseTS r + (ts - remoteTrackLowBaseTS r)
     \<longleftrightarrow> remoteTrackLowBaseTS r = 0"
  by (simp_all add: rebaseTimestamp_def)

text \<open>
  C1. The claim: a forwarded packet leaves with the subscriber-visible base
  timestamp plus (its own timestamp minus the layer's remote base), the remote
  base being subtracted once. The code subtracts the remote base twice
  (\<open>push_written_timestamp\<close>, \<open>rebaseTimestamp_once_iff\<close>: the two agree only
  when the remote base is 0). With base 5000 and a High layer whose remote base
  is 1000, the packet stamped 1090 leaves stamped 4090; the claim's formula
  gives 5090.
\<close>

theorem push_timestamp_subtracts_remote_base_twice:
  "push (layersTrack 0 QualityHigh) (pushOf False QualityHigh 1090)
     = ((layersTrack 1 QualityHigh)\<lparr>lastTimestamp := 1090\<rparr>,
        Written \<lparr>Timestamp = 4090, SequenceNumber = 1\<rparr>)
   \<and> baseTS (remoteTrack (layersTrack 0 QualityHigh))
       + (1090 - remoteTrackHighBaseTS (remoteTrack (layersTrack 0 QualityHigh))) = 5090"
  by (simp add: push_def writeIfMatching_def rebaseTimestamp_def)

section \<open>Sequence numbers\<close>

lemma ucast_add_down: "(ucast (x + y :: 32 word) :: 16 word) = ucast x + ucast y"
proof -
  have "unat (ucast (x + y) :: 16 word) = unat (ucast x + ucast y :: 16 word)"
  proof -
    have d: "(2::nat) ^ 16 dvd 2 ^ 32" by simp
    have "unat (ucast (x + y) :: 16 word) = ((unat x + unat y) mod 2 ^ 32) mod 2 ^ 16"
      by (simp add: unsigned_ucast_eq take_bit_eq_mod unat_word_ariths)
    also have "\<dots> = (unat x + unat y) mod 2 ^ 16"
      using d by (rule mod_mod_cancel)
    also have "\<dots> = (unat x mod 2 ^ 16 + unat y mod 2 ^ 16) mod 2 ^ 16"
      by (rule mod_add_eq [symmetric])
    also have "\<dots> = unat (ucast x + ucast y :: 16 word)"
      by (simp add: unsigned_ucast_eq take_bit_eq_mod unat_word_ariths)
    finally show ?thesis .
  qed
  then show ?thesis by (simp add: word_unat_eq_iff)
qed

lemma push_written_seq:
  "push t c = (t', Written p) \<Longrightarrow>
     sequenceNumber t' = sequenceNumber t + 1 \<and> SequenceNumber p = ucast (sequenceNumber t + 1)"
  by (auto simp: push_def writeIfMatching_def Let_def split: if_splits)

lemma push_unwritten_seq:
  "push t c = (t', r) \<Longrightarrow> written r = [] \<Longrightarrow> sequenceNumber t' = sequenceNumber t"
  by (auto simp: push_def writeIfMatching_def Let_def split: if_splits)

lemma pushAll_seq:
  "pushAll t cs = (t', out) \<Longrightarrow>
     sequenceNumber t' = sequenceNumber t + of_nat (length out) \<and>
     (\<forall>i < length out. SequenceNumber (out ! i) = ucast (sequenceNumber t + of_nat (Suc i)))"
proof (induction cs arbitrary: t t' out)
  case Nil
  then show ?case by simp
next
  case (Cons c cs)
  obtain t1 r where p: "push t c = (t1, r)" by (cases "push t c")
  obtain t2 out2 where q: "pushAll t1 cs = (t2, out2)" by (cases "pushAll t1 cs")
  from Cons.prems p q have e: "t' = t2" "out = written r @ out2" by simp_all
  note ih = Cons.IH [OF q]
  show ?case
  proof (cases r)
    case (Written pk)
    with p have s: "sequenceNumber t1 = sequenceNumber t + 1"
      "SequenceNumber pk = ucast (sequenceNumber t + 1)"
      using push_written_seq by blast+
    have o: "out = pk # out2" using e Written by simp
    have "SequenceNumber (out ! i) = ucast (sequenceNumber t + of_nat (Suc i))"
      if "i < length out" for i
    proof (cases i)
      case 0
      then show ?thesis using o s by simp
    next
      case (Suc j)
      with that o have "j < length out2" by simp
      with ih have "SequenceNumber (out2 ! j) = ucast (sequenceNumber t1 + of_nat (Suc j))"
        by blast
      then show ?thesis using o Suc s by (simp add: ac_simps)
    qed
    moreover have "sequenceNumber t' = sequenceNumber t + of_nat (length out)"
      using ih e o s by (simp add: ac_simps)
    ultimately show ?thesis by blast
  next
    case Dropped
    with p have "sequenceNumber t1 = sequenceNumber t" using push_unwritten_seq by fastforce
    then show ?thesis using ih e Dropped by simp
  next
    case RequestedPLI
    with p have "sequenceNumber t1 = sequenceNumber t" using push_unwritten_seq by fastforce
    then show ?thesis using ih e RequestedPLI by simp
  qed
qed

lemma unat_succ16:
  "unat (w + 1 :: 16 word) = (if w = 65535 then 0 else unat w + 1)"
proof (cases "w = 65535")
  case True
  then show ?thesis by simp
next
  case False
  have "unat w < 2 ^ 16" using unsigned_less [of w] by simp
  moreover have "unat w \<noteq> 65535" using False by (simp add: word_unat_eq_iff)
  ultimately have "unat w + 1 < 2 ^ 16" by simp
  moreover have "unat (w + 1) = (unat w + 1) mod 2 ^ 16"
    by (simp add: unat_word_ariths)
  ultimately have "unat (w + 1) = unat w + 1" by simp
  then show ?thesis using False by simp
qed

text \<open>
  C2, as amended. In any run of \<open>push\<close> calls, with or without layer switches,
  each written packet carries the sequence number of the previously written
  packet plus one in 16-bit arithmetic: one more as a number, except that 65535
  is followed by 0.
\<close>

theorem pushAll_sequence_numbers_step:
  assumes "pushAll t cs = (t', out)" and "Suc i < length out"
  shows "SequenceNumber (out ! Suc i) = SequenceNumber (out ! i) + 1 \<and>
         unat (SequenceNumber (out ! Suc i)) =
           (if SequenceNumber (out ! i) = 65535 then 0 else unat (SequenceNumber (out ! i)) + 1)"
proof -
  from assms have a: "SequenceNumber (out ! i) = ucast (sequenceNumber t + of_nat (Suc i))"
    using pushAll_seq [OF assms(1)] by simp
  from assms have b: "SequenceNumber (out ! Suc i) = ucast (sequenceNumber t + of_nat (Suc (Suc i)))"
    using pushAll_seq [OF assms(1)] by simp
  have "sequenceNumber t + of_nat (Suc (Suc i)) = (sequenceNumber t + of_nat (Suc i)) + 1"
    by (simp add: ac_simps)
  then have s: "SequenceNumber (out ! Suc i) = SequenceNumber (out ! i) + 1"
    using a b by (simp only: ucast_add_down) simp
  then show ?thesis by (simp add: unat_succ16)
qed

text \<open>
  A run with a switch from the High to the Low layer at a key frame: the three
  written packets are numbered 1, 2, 3.
\<close>

theorem pushAll_sequence_numbers_step_witness:
  "Suc 1 < length (snd (pushAll (layersTrack 0 QualityNone)
      [pushOf True QualityHigh 1090, pushOf False QualityHigh 1090, pushOf True QualityLow 3180]))
   \<and> map SequenceNumber (snd (pushAll (layersTrack 0 QualityNone)
      [pushOf True QualityHigh 1090, pushOf False QualityHigh 1090, pushOf True QualityLow 3180]))
     = [1, 2, 3]"
proof -
  let ?t = "layersTrack 0 QualityNone"
  let ?cs = "[pushOf True QualityHigh 1090, pushOf False QualityHigh 1090,
              pushOf True QualityLow 3180]"
  have len: "length (snd (pushAll ?t ?cs)) = 3"
    by (simp add: push_def writeIfMatching_def rebaseTimestamp_def)
  have first: "SequenceNumber (snd (pushAll ?t ?cs) ! 0) = 1"
    by (simp add: push_def writeIfMatching_def rebaseTimestamp_def)
  have e: "pushAll ?t ?cs = (fst (pushAll ?t ?cs), snd (pushAll ?t ?cs))" by simp
  have a: "Suc 0 < length (snd (pushAll ?t ?cs))" and b: "Suc 1 < length (snd (pushAll ?t ?cs))"
    using len by simp_all
  from pushAll_sequence_numbers_step [OF e a] first
  have second: "SequenceNumber (snd (pushAll ?t ?cs) ! Suc 0) = 2" by simp
  from pushAll_sequence_numbers_step [OF e b] second
  have third: "SequenceNumber (snd (pushAll ?t ?cs) ! Suc 1) = 3" by simp
  have "map SequenceNumber (snd (pushAll ?t ?cs)) = [1, 2, 3]"
    using len first second third
    by (auto simp: list_eq_iff_nth_eq less_Suc_eq numeral_3_eq_3)
  with b show ?thesis by blast
qed

lemma push_steady:
  assumes "connState c = PeerConnectionStateConnected" "\<not> isKeyframe c"
    "lastQuality t = layer c" "layer c \<noteq> QualityNone"
  shows "\<exists>t' p. push t c = (t', Written p) \<and> lastQuality t' = layer c"
  using assms by (simp add: push_def writeIfMatching_def Let_def)

lemma pushAll_steady_length:
  assumes "connState c = PeerConnectionStateConnected" "\<not> isKeyframe c" "layer c \<noteq> QualityNone"
  shows "lastQuality t = layer c \<Longrightarrow> length (snd (pushAll t (replicate n c))) = n"
proof (induction n arbitrary: t)
  case 0
  then show ?case by simp
next
  case (Suc n)
  from push_steady [OF assms(1,2) Suc.prems assms(3)]
  obtain t1 p where p: "push t c = (t1, Written p)" "lastQuality t1 = layer c" by blast
  from Suc.IH [OF p(2)] have "length (snd (pushAll t1 (replicate n c))) = n" .
  then show ?case using p by (auto split: prod.splits)
qed

text \<open>
  C2 as stated fails at the 16-bit wrap: starting from the counter 0, the
  65535th written packet is numbered 65535 and the next one 0.
\<close>

theorem pushAll_sequence_numbers_wrap:
  "unat (SequenceNumber (snd (pushAll (layersTrack 0 QualityHigh)
      (replicate 65536 (pushOf False QualityHigh 1090))) ! 65534)) = 65535
   \<and> unat (SequenceNumber (snd (pushAll (layersTrack 0 QualityHigh)
      (replicate 65536 (pushOf False QualityHigh 1090))) ! 65535)) = 0"
proof -
  let ?t = "layersTrack 0 QualityHigh"
  let ?c = "pushOf False QualityHigh 1090"
  let ?out = "snd (pushAll ?t (replicate 65536 ?c))"
  have len: "length ?out = 65536"
    by (rule pushAll_steady_length) simp_all
  have e: "pushAll ?t (replicate 65536 ?c) = (fst (pushAll ?t (replicate 65536 ?c)), ?out)"
    by simp
  have nth: "SequenceNumber (?out ! i) = ucast (sequenceNumber ?t + of_nat (Suc i))"
    if "i < 65536" for i
    using pushAll_seq [OF e] that len by simp
  have "SequenceNumber (?out ! 65534) = ucast (65535 :: 32 word)"
    using nth [of 65534] by simp
  moreover have "SequenceNumber (?out ! 65535) = ucast (65536 :: 32 word)"
    using nth [of 65535] by simp
  ultimately show ?thesis by simp
qed

section \<open>Distributed quality\<close>

text \<open>
  C4. The claim: the share is the leftover bandwidth divided by max(S, 1), so
  the computation returns a level for every room. The code divides by S itself:
  in a room where no other client has a simulcast track (the subscriber alone,
  or with a publisher of plain audio and video) the division panics, whatever
  the bandwidth and the configuration.
\<close>

theorem getDistributedQuality_divides_by_zero:
  "getDistributedQuality cfg self [\<lparr>roomClientID = self, roomTracks = own\<rparr>] availableBandwidth
     = Inl IntegerDivideByZero
   \<and> getDistributedQuality cfg self
        [\<lparr>roomClientID = self, roomTracks = own\<rparr>,
         \<lparr>roomClientID = CHR ''p'' # self,
          roomTracks = [\<lparr>Kind = RTPCodecTypeAudio, IsSimulcast = False\<rparr>,
                        \<lparr>Kind = RTPCodecTypeVideo, IsSimulcast = False\<rparr>]\<rparr>]
        availableBandwidth
     = Inl IntegerDivideByZero"
  by (simp add: getDistributedQuality_def)

lemma qualityOfShare_at_high: "qualityOfShare cfg (VideoHigh cfg) = QualityLow"
  by (simp add: qualityOfShare_def)

text \<open>
  C5. The claim: a share above the high threshold gives High, a share above the
  mid threshold gives Mid, anything else Low; a share equal to the high threshold
  gives Mid. The code gives Low at exactly the high threshold
  (\<open>qualityOfShare_at_high\<close>), between Mid just below it and High just above it.
\<close>

theorem getDistributedQuality_at_high_threshold:
  "getDistributedQuality thresholds ''sub'' [simulcastPublisher] 1999999 = Inr QualityMid
   \<and> getDistributedQuality thresholds ''sub'' [simulcastPublisher] 2000000 = Inr QualityLow
   \<and> getDistributedQuality thresholds ''sub'' [simulcastPublisher] 2000001 = Inr QualityHigh"
  by (simp add: getDistributedQuality_def qualityOfShare_def)

section \<open>Signaling flags\<close>

lemma IsAllowNegotiation_NegotiationNeeded:
  "NegotiationNeeded (snd (IsAllowNegotiation c)) = NegotiationNeeded c"
  by (simp add: IsAllowNegotiation_def)

lemma duringOnRenegotiation_NegotiationNeeded:
  "NegotiationNeeded (duringOnRenegotiation n c) = NegotiationNeeded c"
  unfolding duringOnRenegotiation_def
  by (induction n) (simp_all add: IsAllowNegotiation_NegotiationNeeded)

lemma renegotiateBody_clears_NegotiationNeeded:
  "renegotiateBody p c = Inr c' \<Longrightarrow> \<not> NegotiationNeeded c'"
  by (auto simp: renegotiateBody_def Let_def duringOnRenegotiation_NegotiationNeeded
      split: if_splits RenegotiationOutcome.splits)

lemma renegotiateLoop_once:
  "NegotiationNeeded c \<Longrightarrow>
     renegotiateLoop passes i c =
       (case renegotiateBody (passes i) c of
          Inl c' \<Rightarrow> c' | Inr c' \<Rightarrow> c'\<lparr>isInRenegotiation := False\<rparr>)"
proof -
  assume n: "NegotiationNeeded c"
  show ?thesis
  proof (cases "renegotiateBody (passes i) c")
    case (Inl a)
    then show ?thesis using n by (simp add: renegotiateLoop.simps [of passes i c])
  next
    case (Inr b)
    then have "\<not> NegotiationNeeded b" by (rule renegotiateBody_clears_NegotiationNeeded)
    then have "renegotiateLoop passes (Suc i) b = b\<lparr>isInRenegotiation := False\<rparr>"
      by (simp add: renegotiateLoop.simps [of passes "Suc i" b])
    then show ?thesis using n Inr by (simp add: renegotiateLoop.simps [of passes i c])
  qed
qed

lemma renegotiateQueuOp_unfold:
  "renegotiateQueuOp passes c =
     (if isInRemoteNegotiation c \<or> isInRenegotiation c then c\<lparr>NegotiationNeeded := True\<rparr>
      else (case renegotiateBody (passes 0) (c\<lparr>NegotiationNeeded := True, isInRenegotiation := True\<rparr>) of
              Inl c' \<Rightarrow> c' | Inr c' \<Rightarrow> c'\<lparr>isInRenegotiation := False\<rparr>))"
  by (simp add: renegotiateQueuOp_def Let_def renegotiateLoop_once)

lemma duringOnRenegotiation_Suc:
  "duringOnRenegotiation (Suc n) c = snd (IsAllowNegotiation (duringOnRenegotiation n c))"
  by (simp add: duringOnRenegotiation_def)

lemma duringOnRenegotiation_0:
  "duringOnRenegotiation 0 c = c\<lparr>invoked := invoked c @ [OnRenegotiation]\<rparr>"
  by (simp add: duringOnRenegotiation_def)

lemma applyOp_completes:
  "\<not> isInRenegotiation c \<Longrightarrow> completes op \<Longrightarrow> \<not> isInRenegotiation (applyOp op c)"
proof (cases op)
  case CallIsAllowNegotiation
  assume "\<not> isInRenegotiation c"
  then show ?thesis using CallIsAllowNegotiation by (simp add: IsAllowNegotiation_def)
next
  case (RunNegotiate r)
  assume "\<not> isInRenegotiation c"
  then show ?thesis using RunNegotiate
    by (simp add: negotiateQueuOp_def Let_def split: NegotiateOutcome.splits)
next
  case (RunRenegotiate passes)
  assume "\<not> isInRenegotiation c" and "completes op"
  then show ?thesis using RunRenegotiate
    by (simp add: renegotiateQueuOp_unfold renegotiateBody_def Let_def)
next
  case RunAllowRemoteRenegotiation
  assume "\<not> isInRenegotiation c"
  then show ?thesis using RunAllowRemoteRenegotiation
    by (simp add: allowRemoteRenegotiationQueuOp_def)
qed

lemma runOps_completes:
  "\<not> isInRenegotiation c \<Longrightarrow> list_all completes ops \<Longrightarrow> \<not> isInRenegotiation (runOps ops c)"
  by (induction ops arbitrary: c) (simp_all add: applyOp_completes)

text \<open>
  C3. The claim: at no point of a run of signaling operations are
  \<open>isInRenegotiation\<close> and \<open>isInRemoteNegotiation\<close> both true. A renegotiation
  cut short by a \<open>return\<close> inside the loop (here the \<open>OnRenegotiation\<close> callback
  fails) leaves \<open>isInRenegotiation\<close> set; the allow-remote-renegotiation operation,
  or a negotiate operation that fails, then sets \<open>isInRemoteNegotiation\<close> as
  well. While every renegotiation completes the first flag is clear between
  operations (\<open>runOps_completes\<close>).
\<close>

theorem signaling_flags_both_true_after_aborted_renegotiation:
  "isInRenegotiation
     (runOps [RunRenegotiate (\<lambda>i. \<lparr>outcome = OnRenegotiationFails, remoteRequests = 0\<rparr>),
              RunAllowRemoteRenegotiation]
        (peerClient ''C'' PeerConnectionStateConnected [] [] []))
   \<and> isInRemoteNegotiation
     (runOps [RunRenegotiate (\<lambda>i. \<lparr>outcome = OnRenegotiationFails, remoteRequests = 0\<rparr>),
              RunAllowRemoteRenegotiation]
        (peerClient ''C'' PeerConnectionStateConnected [] [] []))
   \<and> isInRenegotiation
     (runOps [RunRenegotiate (\<lambda>i. \<lparr>outcome = OnRenegotiationFails, remoteRequests = 0\<rparr>),
              RunNegotiate SetRemoteDescriptionFails]
        (peerClient ''C'' PeerConnectionStateConnected [] [] []))
   \<and> isInRemoteNegotiation
     (runOps [RunRenegotiate (\<lambda>i. \<lparr>outcome = OnRenegotiationFails, remoteRequests = 0\<rparr>),
              RunNegotiate SetRemoteDescriptionFails]
        (peerClient ''C'' PeerConnectionStateConnected [] [] []))"
  by (simp add: renegotiateQueuOp_unfold renegotiateBody_def duringOnRenegotiation_def
      allowRemoteRenegotiationQueuOp_def negotiateQueuOp_def)

lemma IsAllowNegotiation_refused:
  "isInRenegotiation c \<Longrightarrow> IsAllowNegotiation c = (False, c\<lparr>pendingRemoteRenegotiation := True\<rparr>)"
  by (simp add: IsAllowNegotiation_def)

lemma IsAllowNegotiation_invoked:
  "invoked (snd (IsAllowNegotiation c)) = invoked c \<and> queue (snd (IsAllowNegotiation c)) = queue c"
  by (simp add: IsAllowNegotiation_def)

lemma duringOnRenegotiation_invoked:
  "invoked (duringOnRenegotiation n c) = invoked c @ [OnRenegotiation]
   \<and> queue (duringOnRenegotiation n c) = queue c"
  by (induction n) (simp_all add: duringOnRenegotiation_0 duringOnRenegotiation_Suc IsAllowNegotiation_invoked)

lemma renegotiateQueuOp_never_notifies:
  "count_list (invoked (renegotiateQueuOp passes c)) OnAllowedRemoteRenegotiation
     = count_list (invoked c) OnAllowedRemoteRenegotiation
   \<and> queue (renegotiateQueuOp passes c) = queue c"
  by (simp add: renegotiateQueuOp_unfold renegotiateBody_def Let_def duringOnRenegotiation_invoked
      split: RenegotiationOutcome.splits)

text \<open>
  C8. The claim: \<open>IsAllowNegotiation\<close> called during a local renegotiation
  returns false and sets \<open>pendingRemoteRenegotiation\<close>, and once the loop has
  completed \<open>OnAllowedRemoteRenegotiation\<close> is invoked. The first half holds
  (\<open>IsAllowNegotiation_refused\<close>). The second does not: the renegotiation below
  succeeds with one refused request made while \<open>OnRenegotiation\<close> blocks, and
  ends with the pending flag still set, no allow-remote-renegotiation item
  queued and \<open>OnRenegotiation\<close> the only callback invoked
  (\<open>renegotiateQueuOp_never_notifies\<close> for every run).
\<close>

theorem renegotiation_completes_without_notification:
  "renegotiateQueuOp (\<lambda>i. \<lparr>outcome = RenegotiationSucceeds, remoteRequests = 1\<rparr>)
     (peerClient ''C'' PeerConnectionStateConnected [] [] [])
   = (peerClient ''C'' PeerConnectionStateConnected [] [] [])
       \<lparr>pendingRemoteRenegotiation := True, invoked := [OnRenegotiation]\<rparr>
   \<and> IsAllowNegotiation
       ((peerClient ''C'' PeerConnectionStateConnected [] [] [])
          \<lparr>isInRenegotiation := True, invoked := [OnRenegotiation]\<rparr>)
     = (False,
        (peerClient ''C'' PeerConnectionStateConnected [] [] [])
          \<lparr>isInRenegotiation := True, pendingRemoteRenegotiation := True,
           invoked := [OnRenegotiation]\<rparr>)"
  by (simp add: renegotiateQueuOp_unfold renegotiateBody_def duringOnRenegotiation_def
      IsAllowNegotiation_def)

section \<open>Unsubscribing\<close>

lemma Unsubscribe_first:
  "idx s < length (onChangedCallbacks m) \<Longrightarrow>
     Unsubscribe s m =
       Inr (m\<lparr>onChangedCallbacks :=
                take (idx s) (onChangedCallbacks m) @ drop (Suc (idx s)) (onChangedCallbacks m)\<rparr>)"
  by (simp add: Unsubscribe_def)

lemma UnsubscribeTwice_never_noop:
  "idx s < length (onChangedCallbacks m) \<Longrightarrow>
     UnsubscribeTwice s m =
       (if idx s + 1 < length (onChangedCallbacks m)
        then Inr (m\<lparr>onChangedCallbacks :=
                       take (idx s) (onChangedCallbacks m) @ drop (idx s + 2) (onChangedCallbacks m)\<rparr>)
        else Inl SliceBoundsOutOfRange)"
  by (auto simp: UnsubscribeTwice_def Unsubscribe_def min_def)

text \<open>
  C9. The claim: of two \<open>Unsubscribe\<close> calls on one handle the first removes
  the subscribed callback and the second does nothing. The second call removes
  whatever callback now stands at the stored index, or panics when none does
  (\<open>UnsubscribeTwice_never_noop\<close>): with \<open>a\<close> and \<open>b\<close> registered in this
  order, unsubscribing \<open>a\<close> twice removes \<open>b\<close> too, and unsubscribing \<open>b\<close>
  twice panics.
\<close>

theorem Unsubscribe_twice_removes_second_callback:
  "UnsubscribeTwice \<lparr>idx = 0\<rparr> \<lparr>onChangedCallbacks = [''a'', ''b'']\<rparr>
     = Inr \<lparr>onChangedCallbacks = []\<rparr>
   \<and> UnsubscribeTwice \<lparr>idx = 0\<rparr> \<lparr>onChangedCallbacks = [''a'', ''b'', ''c'']\<rparr>
     = Inr \<lparr>onChangedCallbacks = [''c'']\<rparr>
   \<and> UnsubscribeTwice \<lparr>idx = 1\<rparr> \<lparr>onChangedCallbacks = [''a'', ''b'']\<rparr>
     = Inl SliceBoundsOutOfRange
   \<and> OnChanged (fst (OnChanged NewMetadata ''a'')) ''b''
     = (\<lparr>onChangedCallbacks = [''a'', ''b'']\<rparr>, \<lparr>idx = 1\<rparr>)
   \<and> OnChanged NewMetadata ''a'' = (\<lparr>onChangedCallbacks = [''a'']\<rparr>, \<lparr>idx = 0\<rparr>)"
  by (simp add: UnsubscribeTwice_def Unsubscribe_def OnChanged_def NewMetadata_def)

section \<open>Removing tracks\<close>

lemma removeTrackLoop_Cons:
  "removeTrackLoop sid tid (c # cs) r0 =
     (fst (removeTrackLoop sid tid cs (fst (removePublishedTrack sid tid c))),
      snd (removePublishedTrack sid tid c)
        # snd (removeTrackLoop sid tid cs (fst (removePublishedTrack sid tid c))))"
  by (simp split: prod.splits)

lemma removeTrackLoop_last:
  "fst (removeTrackLoop sid tid cs r0) =
     (if cs = [] then r0 else fst (removePublishedTrack sid tid (last cs)))"
proof (induction cs arbitrary: r0)
  case Nil
  then show ?case by simp
next
  case (Cons c cs)
  show ?case
    by (simp only: removeTrackLoop_Cons fst_conv Cons.IH) simp
qed

lemma removeTrackLoop_clients:
  "snd (removeTrackLoop sid tid cs r0) = map (\<lambda>c. snd (removePublishedTrack sid tid c)) cs"
proof (induction cs arbitrary: r0)
  case Nil
  then show ?case by simp
next
  case (Cons c cs)
  show ?case
    by (simp only: removeTrackLoop_Cons snd_conv Cons.IH) simp
qed

lemma removePublishedTrack_deletes:
  "map_of (publishedTracks (snd (removePublishedTrack sid tid c))) (trackKey sid tid) = None"
  by (simp add: removePublishedTrack_def Let_def delete_conv)

text \<open>
  C6. The claim: \<open>removeTrack\<close> removes the track from every client and returns
  true exactly when some client had it. Every client is pruned
  (\<open>removeTrackLoop_clients\<close>, \<open>removePublishedTrack_deletes\<close>), but the result
  is the answer of the client visited last (\<open>removeTrackLoop_last\<close>): with
  \<open>A\<close> holding the track and \<open>B\<close> not, the call returns false when \<open>B\<close> is
  visited last and true when \<open>A\<close> is.
\<close>

theorem removeTrack_reports_last_client_only:
  "fst (removeTrack ''s'' ''t''
          \<lparr>clients = [peerClient ''A'' PeerConnectionStateConnected [(''s-t'', trackST)] [] [Some trackST],
                      peerClient ''B'' PeerConnectionStateConnected [] [] []]\<rparr>) = False
   \<and> fst (removeTrack ''s'' ''t''
          \<lparr>clients = [peerClient ''B'' PeerConnectionStateConnected [] [] [],
                      peerClient ''A'' PeerConnectionStateConnected [(''s-t'', trackST)] [] [Some trackST]]\<rparr>) = True
   \<and> fst (removePublishedTrack ''s'' ''t''
          (peerClient ''A'' PeerConnectionStateConnected [(''s-t'', trackST)] [] [Some trackST])) = True"
  by (simp add: removeTrack_def removePublishedTrack_def trackKey_def removeFromSender_def)





section \<open>Current tracks of a closed or failed client\<close>

lemma addTrack_clientID: "clientID (snd (addTrack track c)) = clientID c"
  by (simp add: addTrack_def setClientTrack_def Let_def)

lemma syncPeerTracks_empty:
  "syncPeerTracks Map.empty pid trs (c, log, need) = (c', log', need') \<Longrightarrow>
     clientID c' = clientID c
     \<and> log' = log @ (if clientID c \<noteq> pid then replicate (length trs) pid else [])
     \<and> need' = (need \<or> (clientID c \<noteq> pid \<and> trs \<noteq> []))"
proof (induction trs arbitrary: c log need)
  case Nil
  then show ?case by simp
next
  case (Cons a trs)
  obtain k track where a: "a = (k, track)" by (cases a)
  show ?case
  proof (cases "clientID c \<noteq> pid")
    case True
    with Cons.prems a
    have "syncPeerTracks Map.empty pid trs (snd (addTrack track c), log @ [pid], True) = (c', log', need')"
      by simp
    from Cons.IH [OF this] True show ?thesis
      by (simp add: addTrack_clientID replicate_append_same)
  next
    case False
    with Cons.prems a
    have "syncPeerTracks Map.empty pid trs (c, log, need) = (c', log', need')" by simp
    from Cons.IH [OF this] False show ?thesis by simp
  qed
qed

lemma syncPeers_empty:
  "syncPeers Map.empty ps (c, log, need) = (c', log', need') \<Longrightarrow>
     clientID c' = clientID c
     \<and> log' = log @ concat (map (\<lambda>p. if clientID c \<noteq> clientID p
                                        then replicate (length (tracks p)) (clientID p) else []) ps)
     \<and> need' = (need \<or> (\<exists>p \<in> set ps. clientID c \<noteq> clientID p \<and> tracks p \<noteq> []))"
proof (induction ps arbitrary: c log need)
  case Nil
  then show ?case by simp
next
  case (Cons p ps)
  obtain c1 log1 need1 where
    s: "syncPeerTracks Map.empty (clientID p) (tracks p) (c, log, need) = (c1, log1, need1)"
    by (cases "syncPeerTracks Map.empty (clientID p) (tracks p) (c, log, need)") auto
  note h = syncPeerTracks_empty [OF s]
  from Cons.prems s have "syncPeers Map.empty ps (c1, log1, need1) = (c', log', need')" by simp
  from Cons.IH [OF this] h show ?case by auto
qed

text \<open>
  C10. For a client whose peer connection is Closed or Failed,
  \<open>GetCurrentTracks\<close> is the empty map whatever its published-track map holds;
  \<open>SyncTrack\<close> then adds every track of every other client, asks each of those
  publishers for a key frame once per track, and reports that renegotiation is
  needed exactly when some other client has a track.
\<close>

theorem closed_client_has_no_current_tracks:
  assumes "connectionState (peerConnection c) = PeerConnectionStateClosed
           \<or> connectionState (peerConnection c) = PeerConnectionStateFailed"
  shows "GetCurrentTracks c = Map.empty
    \<and> fst (snd (SyncTrack s c))
        = concat (map (\<lambda>p. if clientID c \<noteq> clientID p
                            then replicate (length (tracks p)) (clientID p) else []) (clients s))
    \<and> snd (snd (SyncTrack s c))
        = (\<exists>p \<in> set (clients s). clientID c \<noteq> clientID p \<and> tracks p \<noteq> [])"
proof -
  have g: "GetCurrentTracks c = Map.empty" using assms by (auto simp: GetCurrentTracks_def)
  obtain c' log' need' where r: "SyncTrack s c = (c', log', need')"
    by (cases "SyncTrack s c") auto
  then have "syncPeers Map.empty (clients s) (c, [], False) = (c', log', need')"
    by (simp add: SyncTrack_def g)
  from syncPeers_empty [OF this] r g show ?thesis by simp
qed

text \<open>
  \<open>B\<close> has already published the track of \<open>A\<close>. With a Failed connection
  \<open>SyncTrack\<close> adds it again and asks for renegotiation; with a Connected one
  it does not.
\<close>

theorem closed_client_has_no_current_tracks_witness:
  "GetCurrentTracks (peerClient ''B'' PeerConnectionStateFailed [(''s-t'', trackST)] [] [Some trackST])
     = Map.empty
   \<and> fst (snd (SyncTrack
        \<lparr>clients = [peerClient ''A'' PeerConnectionStateConnected [] [(''t'', trackST)] [],
                    peerClient ''B'' PeerConnectionStateFailed [(''s-t'', trackST)] [] [Some trackST]]\<rparr>
        (peerClient ''B'' PeerConnectionStateFailed [(''s-t'', trackST)] [] [Some trackST]))) = [''A'']
   \<and> snd (snd (SyncTrack
        \<lparr>clients = [peerClient ''A'' PeerConnectionStateConnected [] [(''t'', trackST)] [],
                    peerClient ''B'' PeerConnectionStateFailed [(''s-t'', trackST)] [] [Some trackST]]\<rparr>
        (peerClient ''B'' PeerConnectionStateFailed [(''s-t'', trackST)] [] [Some trackST])))
   \<and> \<not> snd (snd (SyncTrack
        \<lparr>clients = [peerClient ''A'' PeerConnectionStateConnected [] [(''t'', trackST)] [],
                    peerClient ''B'' PeerConnectionStateConnected [(''s-t'', trackST)] [] [Some trackST]]\<rparr>
        (peerClient ''B'' PeerConnectionStateConnected [(''s-t'', trackST)] [] [Some trackST])))"
proof -
  let ?b = "peerClient ''B'' PeerConnectionStateFailed [(''s-t'', trackST)] [] [Some trackST]"
  let ?s = "\<lparr>clients = [peerClient ''A'' PeerConnectionStateConnected [] [(''t'', trackST)] [], ?b]\<rparr>"
  have h: "connectionState (peerConnection ?b) = PeerConnectionStateClosed
           \<or> connectionState (peerConnection ?b) = PeerConnectionStateFailed" by simp
  have live: "\<not> snd (snd (SyncTrack
        \<lparr>clients = [peerClient ''A'' PeerConnectionStateConnected [] [(''t'', trackST)] [],
                    peerClient ''B'' PeerConnectionStateConnected [(''s-t'', trackST)] [] [Some trackST]]\<rparr>
        (peerClient ''B'' PeerConnectionStateConnected [(''s-t'', trackST)] [] [Some trackST])))"
    by (simp add: SyncTrack_def GetCurrentTracks_def trackKey_def)
  from closed_client_has_no_current_tracks [OF h, of ?s] live show ?thesis by simp
qed

end
